theory Spec2Isabelle
  imports Main "HOL-Library.Multiset"
begin

section \<open>The environment of \<open>concat-js.py\<close>\<close>

text \<open>
  The script walks a directory with \<open>os.walk\<close>, and for every file name ending in
  \<open>.js\<close> writes a header and the file's text to one output file. Python strings are
  modelled as \<open>string\<close>; a path is a string.
\<close>

type_synonym path = string

text \<open>
  \<open>filename.endswith(".js")\<close>: the last \<open>len(suf)\<close> characters of \<open>s\<close> are \<open>suf\<close>.
\<close>

definition endswith :: "string \<Rightarrow> string \<Rightarrow> bool" where
  "endswith s suf = (length suf \<le> length s \<and> drop (length s - length suf) s = suf)"

text \<open>
  \<open>os.path.join(a, b)\<close> with two arguments, as \<open>posixpath.join\<close> computes it: an
  absolute \<open>b\<close> replaces \<open>a\<close>; otherwise the parts are joined with one separator unless
  \<open>a\<close> is empty or already ends with one.
\<close>

definition join :: "path \<Rightarrow> string \<Rightarrow> path" where
  "join a b =
     (if b \<noteq> [] \<and> hd b = CHR ''/'' then b
      else if a = [] \<or> last a = CHR ''/'' then a @ b
      else a @ ''/'' @ b)"

text \<open>
  A directory tree as directory listings show it. \<open>os.walk\<close> sorts each entry of a
  listing by \<open>entry.is_dir()\<close>: a directory, or a symbolic link to one (\<open>DirLink\<close>,
  listed among the directories and not descended into, since \<open>followlinks\<close> is off),
  or anything else (\<open>NonDir\<close>: a regular file, a link to a file, a broken link, a
  FIFO, a socket, a device). A directory holds its entries in listing order.
\<close>

datatype node = NonDir | DirLink | Dir "(string \<times> node) list"

fun is_dir :: "node \<Rightarrow> bool" where
  "is_dir NonDir = False"
| "is_dir DirLink = True"
| "is_dir (Dir es) = True"

text \<open>
  \<open>os.walk(top)\<close>, top-down: for the directory itself the triple
  \<open>(dirpath, dirnames, filenames)\<close>, then the walk of each sub-directory in the order
  of \<open>dirnames\<close>. Walking something that is not a directory yields nothing.
\<close>

fun os_walk :: "path \<Rightarrow> node \<Rightarrow> (path \<times> string list \<times> string list) list" where
  "os_walk dirpath (Dir es) =
     (dirpath, map fst (filter (\<lambda>(name, x). is_dir x) es),
           map fst (filter (\<lambda>(name, x). \<not> is_dir x) es)) #
     concat (map (\<lambda>(name, x). os_walk (join dirpath name) x) es)"
| "os_walk dirpath NonDir = []"
| "os_walk dirpath DirLink = []"

text \<open>
  How a call into the operating system ends: it returns, it raises an exception with
  a message, or it never returns (opening a FIFO nobody writes to). What opening a
  file for reading and reading it all gives: a text, an exception, or nothing ever.
\<close>

datatype ending = Returns | Raises string | NeverReturns

datatype opened = Text string | Fails string | Blocks

text \<open>
  What the program can observe of the file system:
  \<^item> \<open>dir_at p\<close>: the listing tree of \<open>p\<close> when \<open>p\<close> names a directory, else \<open>None\<close>;
  \<^item> \<open>walk_cut p\<close>: \<open>Some (n, msg)\<close> when the generator \<open>os.walk(p)\<close> raises after it
    has yielded \<open>n\<close> directories (a \<open>RecursionError\<close> on a deep tree), else \<open>None\<close>;
  \<^item> \<open>stored_text p\<close>: the decoded text that the file \<open>p\<close> holds, or the message
    \<open>str(e)\<close> of the exception that opening, decoding or reading it raises, or
    \<open>Blocks\<close>;
  \<^item> \<open>open_w p\<close>: how \<open>open(p, "w", encoding="utf-8")\<close> ends;
  \<^item> \<open>write_w p text\<close>: how \<open>out.write(text)\<close> ends on the stream opened on \<open>p\<close> (it
    raises \<open>UnicodeEncodeError\<close> for a text that cannot be encoded in UTF-8, such as a
    file name that is not UTF-8, and \<open>OSError\<close> when the device refuses the data);
  \<^item> \<open>close_w p\<close>: how closing that stream ends when the \<open>with\<close> block is left (the
    last flush can raise).
  The directories and files read do not change during a run, and the output file is
  kept apart from them, in the state: the listing and the texts are those the run
  observes.
\<close>

record env =
  dir_at :: "path \<Rightarrow> (string \<times> node) list option"
  walk_cut :: "path \<Rightarrow> (nat \<times> string) option"
  stored_text :: "path \<Rightarrow> opened"
  open_w :: "path \<Rightarrow> ending"
  write_w :: "path \<Rightarrow> string \<Rightarrow> ending"
  close_w :: "path \<Rightarrow> ending"

definition isdir :: "env \<Rightarrow> path \<Rightarrow> bool" where
  "isdir e p = (dir_at e p \<noteq> None)"

text \<open>
  The directories \<open>os.walk(cartella)\<close> yields, and the message of the exception that
  ends the iteration when there is one.
\<close>

definition walk_of :: "env \<Rightarrow> path \<Rightarrow> (path \<times> string list \<times> string list) list \<times> string option" where
  "walk_of e cartella =
     (case dir_at e cartella of
        None \<Rightarrow> ([], None)
      | Some es \<Rightarrow>
          (case walk_cut e cartella of
             None \<Rightarrow> (os_walk cartella (Dir es), None)
           | Some (n, err) \<Rightarrow> (take n (os_walk cartella (Dir es)), Some err)))"

text \<open>
  \<open>open(p, "r", encoding="utf-8")\<close> has no \<open>newline\<close> argument, so \<open>f.read()\<close>
  translates line ends: a carriage return followed by a line feed, and a carriage
  return alone, each become one line feed.
\<close>

fun universal_newlines :: "string \<Rightarrow> string" where
  "universal_newlines [] = []"
| "universal_newlines [c] = [if c = CHR 0x0D then CHR 0x0A else c]"
| "universal_newlines (c # d # cs) =
     (if c = CHR 0x0D \<and> d = CHR 0x0A then CHR 0x0A # universal_newlines cs
      else if c = CHR 0x0D then CHR 0x0A # universal_newlines (d # cs)
      else c # universal_newlines (d # cs))"

definition read_text :: "env \<Rightarrow> path \<Rightarrow> opened" where
  "read_text e p =
     (case stored_text e p of
        Text raw \<Rightarrow> Text (universal_newlines raw)
      | Fails err \<Rightarrow> Fails err
      | Blocks \<Rightarrow> Blocks)"

text \<open>
  What the program changes: the text it has written to each file, the text printed
  on standard output, and the log of the file-system operations it performed.
\<close>

datatype event = OpenWrite path | Walk path | OpenRead path

record state =
  outfiles :: "path \<Rightarrow> string option"
  stdout :: string
  trace :: "event list"

definition log_event :: "event \<Rightarrow> state \<Rightarrow> state" where
  "log_event ev s = s\<lparr>trace := trace s @ [ev]\<rparr>"

text \<open>\<open>print(text)\<close>: the text and a newline on standard output.\<close>

definition print :: "string \<Rightarrow> state \<Rightarrow> state" where
  "print text s = s\<lparr>stdout := stdout s @ text @ ''\<newline>''\<rparr>"

text \<open>
  \<open>open(file_output, "w")\<close> creates the file or truncates it; \<open>out.write(text)\<close>
  appends to it when it returns, and leaves it as it was when it raises. The text is
  written as it is (line ends are not translated on POSIX).
\<close>

definition truncate :: "path \<Rightarrow> state \<Rightarrow> state" where
  "truncate p s = s\<lparr>outfiles := (outfiles s)(p \<mapsto> [])\<rparr>"

definition out_write :: "env \<Rightarrow> path \<Rightarrow> string \<Rightarrow> state \<Rightarrow> ending \<times> state" where
  "out_write e p text s =
     (case write_w e p text of
        Returns \<Rightarrow>
          (Returns,
           s\<lparr>outfiles :=
               (outfiles s)(p \<mapsto> (case outfiles s p of None \<Rightarrow> text | Some old \<Rightarrow> old @ text))\<rparr>)
      | Raises err \<Rightarrow> (Raises err, s)
      | NeverReturns \<Rightarrow> (NeverReturns, s))"

section \<open>\<open>processa_js_files\<close>\<close>

text \<open>
  The body of the inner loop, for one \<open>filename\<close> of the \<open>files\<close> of \<open>root\<close>. The
  header is written before the \<open>try\<close>: an exception of that write leaves the function.
  Inside the \<open>try\<close> the file is opened and read and its text written with a newline;
  an exception of any of these is caught and the comment written instead, by a write
  that again stands outside any \<open>try\<close>.
\<close>

definition visit_file :: "env \<Rightarrow> path \<Rightarrow> path \<Rightarrow> string \<Rightarrow> state \<Rightarrow> ending \<times> state" where
  "visit_file e file_output root filename s =
     (if endswith filename ''.js'' then
        let percorso_file = join root filename
        in (case out_write e file_output (''//'' @ filename @ ''\<newline>'') s of
              (Returns, s1) \<Rightarrow>
                (let s2 = log_event (OpenRead percorso_file) s1
                 in (case read_text e percorso_file of
                       Text contenuto \<Rightarrow>
                         (case out_write e file_output (contenuto @ ''\<newline>'') s2 of
                            (Raises err, s3) \<Rightarrow>
                              out_write e file_output
                                (''// Impossibile leggere '' @ filename @ '': '' @ err @
                                 ''\<newline>'') s3
                          | other \<Rightarrow> other)
                     | Fails err \<Rightarrow>
                         out_write e file_output
                           (''// Impossibile leggere '' @ filename @ '': '' @ err @
                            ''\<newline>'') s2
                     | Blocks \<Rightarrow> (NeverReturns, s2)))
            | other \<Rightarrow> other)
      else (Returns, s))"

text \<open>\<open>for filename in files\<close>: the loop is left by the first exception.\<close>

fun for_files :: "env \<Rightarrow> path \<Rightarrow> path \<Rightarrow> string list \<Rightarrow> state \<Rightarrow> ending \<times> state" where
  "for_files e file_output root [] s = (Returns, s)"
| "for_files e file_output root (filename # files) s =
     (case visit_file e file_output root filename s of
        (Returns, s1) \<Rightarrow> for_files e file_output root files s1
      | other \<Rightarrow> other)"

text \<open>
  \<open>for root, dirs, files in os.walk(cartella)\<close>: after the directories the generator
  yielded, the exception that ended it, if any, leaves the loop.
\<close>

fun for_walk ::
  "env \<Rightarrow> path \<Rightarrow> (path \<times> string list \<times> string list) list \<Rightarrow> string option \<Rightarrow> state \<Rightarrow>
   ending \<times> state" where
  "for_walk e file_output [] stop s =
     (case stop of None \<Rightarrow> (Returns, s) | Some err \<Rightarrow> (Raises err, s))"
| "for_walk e file_output ((root, dirs, files) # rest) stop s =
     (case for_files e file_output root files s of
        (Returns, s1) \<Rightarrow> for_walk e file_output rest stop s1
      | other \<Rightarrow> other)"

text \<open>
  The body of the \<open>with\<close> statement once the output is open: the file exists and is
  empty, the directory is walked, the loops run.
\<close>

definition write_all :: "env \<Rightarrow> path \<Rightarrow> path \<Rightarrow> state \<Rightarrow> ending \<times> state" where
  "write_all e cartella file_output s =
     for_walk e file_output (fst (walk_of e cartella)) (snd (walk_of e cartella))
       (log_event (Walk cartella) (truncate file_output (log_event (OpenWrite file_output) s)))"

text \<open>
  The function. When the output cannot be opened nothing is changed. When the body
  returns or raises, the \<open>with\<close> statement closes the output, and an exception of the
  closing replaces the body's. \<open>outfiles\<close> holds what was written to the stream; what
  of it reached the device when a write or the closing raises is not modelled.
\<close>

definition processa_js_files :: "env \<Rightarrow> path \<Rightarrow> path \<Rightarrow> state \<Rightarrow> ending \<times> state" where
  "processa_js_files e cartella file_output s =
     (case open_w e file_output of
        Returns \<Rightarrow>
          (case write_all e cartella file_output s of
             (NeverReturns, s1) \<Rightarrow> (NeverReturns, s1)
           | (body, s1) \<Rightarrow>
               (case close_w e file_output of
                  Returns \<Rightarrow> (body, s1)
                | closing \<Rightarrow> (closing, s1)))
      | failed \<Rightarrow> (failed, s))"

section \<open>\<open>main\<close>\<close>

text \<open>
  How the process ends: \<open>main\<close> returns (exit status 0), \<open>sys.exit(n)\<close>, an exception
  nobody catches (a traceback, exit status 1), or it never ends. \<open>sys.argv\<close> is the
  program name followed by the arguments; reading \<open>sys.argv[0]\<close> of an empty list
  would raise. Standard output is kept as bytes: the accented letter of the error
  line is its two bytes in UTF-8.
\<close>

datatype outcome = Completed | SysExit int | Uncaught string | NeverEnds

fun exit_status :: "outcome \<Rightarrow> int option" where
  "exit_status Completed = Some 0"
| "exit_status (SysExit n) = Some n"
| "exit_status (Uncaught err) = Some 1"
| "exit_status NeverEnds = None"

definition main :: "env \<Rightarrow> string list \<Rightarrow> state \<Rightarrow> outcome \<times> state" where
  "main e argv s =
     (if length argv \<noteq> 3 then
        (case argv of
           [] \<Rightarrow> (Uncaught ''list index out of range'', s)
         | prog # args \<Rightarrow>
             (SysExit 1, print (''Uso: '' @ prog @ '' <cartella_di_input> <file_di_output>'') s))
      else
        let cartella_di_input = argv ! 1;
            file_di_output = argv ! 2
        in if \<not> isdir e cartella_di_input then
             (SysExit 1,
              print (''Errore: '' @ cartella_di_input @ '' non '' @ [CHR 0xC3, CHR 0xA8] @
                     '' una cartella valida.'') s)
           else
             (case processa_js_files e cartella_di_input file_di_output s of
                (Returns, s') \<Rightarrow>
                  (Completed,
                   print (''Elaborazione completata. Output salvato in '' @ file_di_output) s')
              | (Raises err, s') \<Rightarrow> (Uncaught err, s')
              | (NeverReturns, s') \<Rightarrow> (NeverEnds, s')))"

section \<open>What the output should be\<close>

text \<open>
  The specification's side, to compare the loops with. The block of one candidate
  file: its header line, then the text read and a newline, or the comment that
  replaces the text of a file that cannot be read.
\<close>

definition block :: "env \<Rightarrow> path \<Rightarrow> string \<Rightarrow> string" where
  "block e root filename =
     ''//'' @ filename @ ''\<newline>'' @
     (case read_text e (join root filename) of
        Text contenuto \<Rightarrow> contenuto @ ''\<newline>''
      | Fails err \<Rightarrow> ''// Impossibile leggere '' @ filename @ '': '' @ err @ ''\<newline>''
      | Blocks \<Rightarrow> [])"

text \<open>
  The files of a walk in traversal order, each with the directory it was listed in,
  and the candidates among them.
\<close>

definition walk_files :: "(path \<times> string list \<times> string list) list \<Rightarrow> (path \<times> string) list" where
  "walk_files w = concat (map (\<lambda>(root, dirs, files). map (Pair root) files) w)"

definition candidates :: "(path \<times> string list \<times> string list) list \<Rightarrow> (path \<times> string) list" where
  "candidates w = filter (\<lambda>(root, filename). endswith filename ''.js'') (walk_files w)"

text \<open>
  Every entry of a tree, at any depth, with the directory that holds it: defined on
  the tree alone, in listing order, without the walk.
\<close>

fun entries_of :: "path \<Rightarrow> node \<Rightarrow> (path \<times> string \<times> node) list" where
  "entries_of dirpath (Dir es) =
     concat (map (\<lambda>(name, x). (dirpath, name, x) # entries_of (join dirpath name) x) es)"
| "entries_of dirpath NonDir = []"
| "entries_of dirpath DirLink = []"



text \<open>
  The output of a run without incident: the output can be opened, every write to it
  returns, and so does its closing.
\<close>

definition output_sound :: "env \<Rightarrow> path \<Rightarrow> bool" where
  "output_sound e file_output =
     (open_w e file_output = Returns \<and> (\<forall>text. write_w e file_output text = Returns) \<and>
      close_w e file_output = Returns)"

section \<open>Example inputs\<close>

text \<open>
  The tree \<open>proj/a.js\<close>, \<open>proj/c.txt\<close>, \<open>proj/sub/a.js\<close>, \<open>proj/sub/b.js\<close>, where
  \<open>proj/sub/a.js\<close> cannot be read, the text of \<open>proj/sub/b.js\<close> ends with a newline,
  and \<open>proj\<close>, a directory, cannot be opened for writing.
\<close>

definition example_tree :: "(string \<times> node) list" where
  "example_tree =
     [(''a.js'', NonDir), (''c.txt'', NonDir),
      (''sub'', Dir [(''a.js'', NonDir), (''b.js'', NonDir)])]"

definition example_env :: env where
  "example_env =
     \<lparr>dir_at = (\<lambda>p. if p = ''proj'' then Some example_tree else None),
      walk_cut = (\<lambda>p. None),
      stored_text = (\<lambda>p. if p = ''proj/a.js'' then Text ''let x=1;''
                          else if p = ''proj/sub/b.js'' then Text ''let y=2;\<newline>''
                          else if p = ''proj/c.txt'' then Text ''notes''
                          else Fails ''Permission denied''),
      open_w = (\<lambda>p. if p = ''proj'' then Raises ''[Errno 21] Is a directory'' else Returns),
      write_w = (\<lambda>p text. Returns),
      close_w = (\<lambda>p. Returns)\<rparr>"





text \<open>A tree whose only entry is a FIFO named \<open>p.js\<close> that nobody writes to.\<close>

definition fifo_env :: env where
  "fifo_env =
     \<lparr>dir_at = (\<lambda>p. if p = ''proj'' then Some [(''p.js'', NonDir)] else None),
      walk_cut = (\<lambda>p. None),
      stored_text = (\<lambda>p. Blocks),
      open_w = (\<lambda>p. Returns),
      write_w = (\<lambda>p text. Returns),
      close_w = (\<lambda>p. Returns)\<rparr>"

definition initial_state :: state where
  "initial_state = \<lparr>outfiles = (\<lambda>p. None), stdout = [], trace = []\<rparr>"

section \<open>One candidate\<close>

declare os_walk.simps [simp del] entries_of.simps [simp del]

lemma endswith_iff: "endswith s suf \<longleftrightarrow> (\<exists>p. s = p @ suf)"
proof
  assume "endswith s suf"
  then have "s = take (length s - length suf) s @ suf"
    by (simp add: endswith_def) (metis append_take_drop_id)
  then show "\<exists>p. s = p @ suf" ..
next
  assume "\<exists>p. s = p @ suf"
  then show "endswith s suf" by (auto simp: endswith_def)
qed


lemma out_write_returns:
  "write_w e out text = Returns \<Longrightarrow> outfiles s out = Some old \<Longrightarrow>
   out_write e out text s =
     (Returns, s\<lparr>outfiles := (outfiles s)(out \<mapsto> old @ text)\<rparr>)"
  by (simp add: out_write_def)

lemma out_write_other:
  "p \<noteq> out \<Longrightarrow> outfiles (snd (out_write e out text s)) p = outfiles s p"
  by (simp add: out_write_def split: ending.split)

lemma out_write_stdout: "stdout (snd (out_write e out text s)) = stdout s"
  by (simp add: out_write_def split: ending.split)

lemma out_write_fst: "fst (out_write e out text s) = write_w e out text"
  by (simp add: out_write_def split: ending.split)

lemma out_write_two:
  assumes "outfiles s out = Some a" and "outfiles t out = Some b"
  shows "\<exists>x. outfiles (snd (out_write e out text s)) out = Some (a @ x) \<and>
             outfiles (snd (out_write e out text t)) out = Some (b @ x)"
proof (cases "write_w e out text")
  case Returns
  then show ?thesis using assms by (simp add: out_write_def)
next
  case (Raises err)
  then have "outfiles (snd (out_write e out text s)) out = Some (a @ []) \<and>
             outfiles (snd (out_write e out text t)) out = Some (b @ [])"
    using assms by (simp add: out_write_def)
  then show ?thesis by blast
next
  case NeverReturns
  then have "outfiles (snd (out_write e out text s)) out = Some (a @ []) \<and>
             outfiles (snd (out_write e out text t)) out = Some (b @ [])"
    using assms by (simp add: out_write_def)
  then show ?thesis by blast
qed


lemma visit_file_fst:
  "fst (visit_file e out root filename s) = fst (visit_file e out root filename t)"
  by (simp add: visit_file_def out_write_def log_event_def Let_def
      split: ending.split opened.split)

lemma visit_file_other:
  "p \<noteq> out \<Longrightarrow> outfiles (snd (visit_file e out root filename s)) p = outfiles s p"
  by (simp add: visit_file_def out_write_def log_event_def Let_def
      split: ending.split opened.split)

lemma visit_file_stdout: "stdout (snd (visit_file e out root filename s)) = stdout s"
  by (simp add: visit_file_def out_write_def log_event_def Let_def
      split: ending.split opened.split)

lemma visit_file_two:
  assumes "outfiles s out = Some a" and "outfiles t out = Some b"
  shows "\<exists>x. outfiles (snd (visit_file e out root filename s)) out = Some (a @ x) \<and>
             outfiles (snd (visit_file e out root filename t)) out = Some (b @ x)"
proof -
  let ?h = "''//'' @ filename @ ''\<newline>''"
  let ?p = "join root filename"
  let ?c = "\<lambda>err. ''// Impossibile leggere '' @ filename @ '': '' @ err @ ''\<newline>''"
  have none: "\<exists>x. Some a = Some (a @ x) \<and> Some b = Some (b @ x)"
    by (rule exI[of _ "[]"]) simp
  show ?thesis
  proof (cases "endswith filename ''.js''")
    case False
    then show ?thesis using assms none by (simp add: visit_file_def)
  next
    case js: True
    show ?thesis
    proof (cases "write_w e out ?h")
      case (Raises err)
      then show ?thesis using assms js none by (simp add: visit_file_def out_write_def)
    next
      case NeverReturns
      then show ?thesis using assms js none by (simp add: visit_file_def out_write_def)
    next
      case h: Returns
      have one: "\<exists>x. Some (a @ ?h) = Some (a @ x) \<and> Some (b @ ?h) = Some (b @ x)"
        by (rule exI[of _ ?h]) simp
      have two: "\<And>u. \<exists>x. Some (a @ ?h @ u) = Some (a @ x) \<and> Some (b @ ?h @ u) = Some (b @ x)"
        by (rule exI[of _ "?h @ _"]) simp
      show ?thesis
      proof (cases "read_text e ?p")
        case Blocks
        then show ?thesis
          using assms js h one by (simp add: visit_file_def out_write_def log_event_def)
      next
        case (Fails err)
        then show ?thesis
          using assms js h one two[of "?c err"]
          by (cases "write_w e out (?c err)")
             (simp_all add: visit_file_def out_write_def log_event_def)
      next
        case (Text contenuto)
        show ?thesis
        proof (cases "write_w e out (contenuto @ ''\<newline>'')")
          case Returns
          then show ?thesis
            using assms js h Text two[of "contenuto @ ''\<newline>''"]
            by (simp add: visit_file_def out_write_def log_event_def)
        next
          case NeverReturns
          then show ?thesis
            using assms js h Text one
            by (simp add: visit_file_def out_write_def log_event_def)
        next
          case (Raises err)
          then show ?thesis
            using assms js h Text one two[of "?c err"]
            by (cases "write_w e out (?c err)")
               (simp_all add: visit_file_def out_write_def log_event_def)
        qed
      qed
    qed
  qed
qed

text \<open>Whatever happens after it, a header that was written stands first.\<close>

lemma visit_file_header:
  assumes "endswith filename ''.js''" and "outfiles s out = Some old"
    and "write_w e out (''//'' @ filename @ ''\<newline>'') = Returns"
  shows "\<exists>body. outfiles (snd (visit_file e out root filename s)) out =
                  Some (old @ ''//'' @ filename @ ''\<newline>'' @ body)"
proof -
  let ?h = "''//'' @ filename @ ''\<newline>''"
  let ?s2 = "log_event (OpenRead (join root filename))
               (s\<lparr>outfiles := (outfiles s)(out \<mapsto> old @ ?h)\<rparr>)"
  let ?c = "\<lambda>err. ''// Impossibile leggere '' @ filename @ '': '' @ err @ ''\<newline>''"
  have o2: "outfiles ?s2 out = Some (old @ ?h)" by (simp add: log_event_def)
  have w: "\<exists>x. outfiles (snd (out_write e out u ?s2)) out = Some ((old @ ?h) @ x)" for u
    using out_write_two[OF o2 o2] by blast
  have stay: "\<exists>x. outfiles (snd (r, ?s2)) out = Some ((old @ ?h) @ x)" for r :: ending
    using o2 by (intro exI[of _ "[]"]) simp
  have "visit_file e out root filename s = (NeverReturns, ?s2) \<or>
        (\<exists>u. visit_file e out root filename s = out_write e out u ?s2)"
  proof (cases "read_text e (join root filename)")
    case Blocks
    then show ?thesis
      using assms by (simp add: visit_file_def out_write_def log_event_def Let_def)
  next
    case (Fails err)
    then have "visit_file e out root filename s = out_write e out (?c err) ?s2"
      using assms by (simp add: visit_file_def out_write_def log_event_def Let_def)
    then show ?thesis by blast
  next
    case (Text contenuto)
    show ?thesis
    proof (cases "write_w e out (contenuto @ ''\<newline>'')")
      case Returns
      then have "visit_file e out root filename s =
                   out_write e out (contenuto @ ''\<newline>'') ?s2"
        using assms Text by (simp add: visit_file_def out_write_def log_event_def Let_def)
      then show ?thesis by blast
    next
      case (Raises err)
      then have "visit_file e out root filename s = out_write e out (?c err) ?s2"
        using assms Text by (simp add: visit_file_def out_write_def log_event_def Let_def)
      then show ?thesis by blast
    next
      case NeverReturns
      then show ?thesis
        using assms Text by (simp add: visit_file_def out_write_def log_event_def Let_def)
    qed
  qed
  then have "\<exists>x. outfiles (snd (visit_file e out root filename s)) out = Some ((old @ ?h) @ x)"
    using w stay[of NeverReturns] by auto
  then show ?thesis by simp
qed

text \<open>The visit of a file when every write returns and the reading does not block.\<close>

lemma visit_file_sound:
  assumes "\<And>text. write_w e out text = Returns"
    and "endswith filename ''.js'' \<Longrightarrow> read_text e (join root filename) \<noteq> Blocks"
    and "outfiles s out = Some old"
  shows "fst (visit_file e out root filename s) = Returns"
    and "outfiles (snd (visit_file e out root filename s)) out =
           Some (old @ (if endswith filename ''.js'' then block e root filename else []))"
    and "trace (snd (visit_file e out root filename s)) =
           trace s @ (if endswith filename ''.js'' then [OpenRead (join root filename)] else [])"
  using assms
  by (auto simp add: visit_file_def out_write_def log_event_def block_def Let_def
      split: opened.split)

section \<open>The loops\<close>

lemma candidates_Nil: "candidates [] = []"
  by (simp add: candidates_def walk_files_def)

lemma candidates_Cons:
  "candidates ((root, dirs, files) # rest) =
     filter (\<lambda>(r, f). endswith f ''.js'') (map (Pair root) files) @ candidates rest"
  by (simp add: candidates_def walk_files_def)

lemma for_files_step:
  "for_files e out root (filename # files) s =
     (if fst (visit_file e out root filename s) = Returns
      then for_files e out root files (snd (visit_file e out root filename s))
      else visit_file e out root filename s)"
  by (cases "visit_file e out root filename s"; cases "fst (visit_file e out root filename s)")
     simp_all

lemma for_walk_step:
  "for_walk e out ((root, dirs, files) # rest) stop s =
     (if fst (for_files e out root files s) = Returns
      then for_walk e out rest stop (snd (for_files e out root files s))
      else for_files e out root files s)"
  by (cases "for_files e out root files s"; cases "fst (for_files e out root files s)")
     simp_all

declare for_files.simps(2) [simp del] for_walk.simps(2) [simp del]


lemma for_files_other:
  "p \<noteq> out \<Longrightarrow> outfiles (snd (for_files e out root files s)) p = outfiles s p"
  by (induction files arbitrary: s) (simp_all add: for_files_step visit_file_other)

lemma for_files_stdout: "stdout (snd (for_files e out root files s)) = stdout s"
  by (induction files arbitrary: s) (simp_all add: for_files_step visit_file_stdout)

lemma for_files_two:
  assumes "outfiles s out = Some a" and "outfiles t out = Some b"
  shows "\<exists>x. fst (for_files e out root files s) = fst (for_files e out root files t) \<and>
             outfiles (snd (for_files e out root files s)) out = Some (a @ x) \<and>
             outfiles (snd (for_files e out root files t)) out = Some (b @ x)"
  using assms
proof (induction files arbitrary: s t a b)
  case Nil
  then have "fst (for_files e out root [] s) = fst (for_files e out root [] t) \<and>
             outfiles (snd (for_files e out root [] s)) out = Some (a @ []) \<and>
             outfiles (snd (for_files e out root [] t)) out = Some (b @ [])"
    by simp
  then show ?case by blast
next
  case (Cons f fs)
  let ?s1 = "snd (visit_file e out root f s)"
  let ?t1 = "snd (visit_file e out root f t)"
  have st: "fst (visit_file e out root f s) = fst (visit_file e out root f t)"
    by (rule visit_file_fst)
  obtain x1 where s1: "outfiles ?s1 out = Some (a @ x1)" and t1: "outfiles ?t1 out = Some (b @ x1)"
    using visit_file_two[OF Cons.prems] by blast
  show ?case
  proof (cases "fst (visit_file e out root f s) = Returns")
    case True
    obtain x2 where
      "fst (for_files e out root fs ?s1) = fst (for_files e out root fs ?t1)"
      "outfiles (snd (for_files e out root fs ?s1)) out = Some ((a @ x1) @ x2)"
      "outfiles (snd (for_files e out root fs ?t1)) out = Some ((b @ x1) @ x2)"
      using Cons.IH[OF s1 t1] by blast
    then have "fst (for_files e out root (f # fs) s) = fst (for_files e out root (f # fs) t) \<and>
             outfiles (snd (for_files e out root (f # fs) s)) out = Some (a @ (x1 @ x2)) \<and>
             outfiles (snd (for_files e out root (f # fs) t)) out = Some (b @ (x1 @ x2))"
      using True st by (simp add: for_files_step)
    then show ?thesis by blast
  next
    case False
    then have "fst (for_files e out root (f # fs) s) = fst (for_files e out root (f # fs) t) \<and>
             outfiles (snd (for_files e out root (f # fs) s)) out = Some (a @ x1) \<and>
             outfiles (snd (for_files e out root (f # fs) t)) out = Some (b @ x1)"
      using st s1 t1 by (simp add: for_files_step)
    then show ?thesis by blast
  qed
qed

lemma for_files_sound:
  assumes "\<And>text. write_w e out text = Returns"
    and "\<And>f. f \<in> set files \<Longrightarrow> endswith f ''.js'' \<Longrightarrow> read_text e (join root f) \<noteq> Blocks"
    and "outfiles s out = Some old"
  shows "fst (for_files e out root files s) = Returns \<and>
         outfiles (snd (for_files e out root files s)) out =
           Some (old @ concat (map (\<lambda>(r, f). block e r f)
                   (filter (\<lambda>(r, f). endswith f ''.js'') (map (Pair root) files)))) \<and>
         trace (snd (for_files e out root files s)) =
           trace s @ map (\<lambda>(r, f). OpenRead (join r f))
                   (filter (\<lambda>(r, f). endswith f ''.js'') (map (Pair root) files))"
  using assms(2,3)
proof (induction files arbitrary: s old)
  case Nil
  then show ?case by simp
next
  case (Cons f fs)
  have r: "endswith f ''.js'' \<Longrightarrow> read_text e (join root f) \<noteq> Blocks"
    using Cons.prems(1) by simp
  note v = visit_file_sound[OF assms(1) r Cons.prems(2)]
  have "fst (for_files e out root fs (snd (visit_file e out root f s))) = Returns \<and>
         outfiles (snd (for_files e out root fs (snd (visit_file e out root f s)))) out =
           Some ((old @ (if endswith f ''.js'' then block e root f else [])) @
                 concat (map (\<lambda>(r, f). block e r f)
                   (filter (\<lambda>(r, f). endswith f ''.js'') (map (Pair root) fs)))) \<and>
         trace (snd (for_files e out root fs (snd (visit_file e out root f s)))) =
           trace (snd (visit_file e out root f s)) @ map (\<lambda>(r, f). OpenRead (join r f))
                   (filter (\<lambda>(r, f). endswith f ''.js'') (map (Pair root) fs))"
    by (rule Cons.IH) (simp_all add: Cons.prems(1) v(2))
  then show ?case
    by (simp add: for_files_step v(1) v(3))
qed


lemma for_walk_other:
  "p \<noteq> out \<Longrightarrow> outfiles (snd (for_walk e out w stop s)) p = outfiles s p"
proof (induction w arbitrary: s)
  case Nil
  then show ?case by (simp split: option.split)
next
  case (Cons t rest)
  obtain root dirs files where t: "t = (root, dirs, files)" by (cases t)
  show ?case using Cons by (simp add: t for_walk_step for_files_other)
qed

lemma for_walk_stdout: "stdout (snd (for_walk e out w stop s)) = stdout s"
proof (induction w arbitrary: s)
  case Nil
  then show ?case by (simp split: option.split)
next
  case (Cons t rest)
  obtain root dirs files where t: "t = (root, dirs, files)" by (cases t)
  show ?case using Cons by (simp add: t for_walk_step for_files_stdout)
qed

lemma for_walk_two:
  assumes "outfiles s out = Some a" and "outfiles t out = Some b"
  shows "\<exists>x. fst (for_walk e out w stop s) = fst (for_walk e out w stop t) \<and>
             outfiles (snd (for_walk e out w stop s)) out = Some (a @ x) \<and>
             outfiles (snd (for_walk e out w stop t)) out = Some (b @ x)"
  using assms
proof (induction w arbitrary: s t a b)
  case Nil
  then have "fst (for_walk e out [] stop s) = fst (for_walk e out [] stop t) \<and>
             outfiles (snd (for_walk e out [] stop s)) out = Some (a @ []) \<and>
             outfiles (snd (for_walk e out [] stop t)) out = Some (b @ [])"
    by (simp split: option.split)
  then show ?case by blast
next
  case (Cons d rest)
  obtain root dirs files where d: "d = (root, dirs, files)" by (cases d)
  let ?s1 = "snd (for_files e out root files s)"
  let ?t1 = "snd (for_files e out root files t)"
  obtain x1 where st: "fst (for_files e out root files s) = fst (for_files e out root files t)"
    and s1: "outfiles ?s1 out = Some (a @ x1)" and t1: "outfiles ?t1 out = Some (b @ x1)"
    using for_files_two[OF Cons.prems] by blast
  show ?case
  proof (cases "fst (for_files e out root files s) = Returns")
    case True
    obtain x2 where
      "fst (for_walk e out rest stop ?s1) = fst (for_walk e out rest stop ?t1)"
      "outfiles (snd (for_walk e out rest stop ?s1)) out = Some ((a @ x1) @ x2)"
      "outfiles (snd (for_walk e out rest stop ?t1)) out = Some ((b @ x1) @ x2)"
      using Cons.IH[OF s1 t1] by blast
    then have "fst (for_walk e out (d # rest) stop s) = fst (for_walk e out (d # rest) stop t) \<and>
             outfiles (snd (for_walk e out (d # rest) stop s)) out = Some (a @ (x1 @ x2)) \<and>
             outfiles (snd (for_walk e out (d # rest) stop t)) out = Some (b @ (x1 @ x2))"
      using True st by (simp add: d for_walk_step)
    then show ?thesis by blast
  next
    case False
    then have "fst (for_walk e out (d # rest) stop s) = fst (for_walk e out (d # rest) stop t) \<and>
             outfiles (snd (for_walk e out (d # rest) stop s)) out = Some (a @ x1) \<and>
             outfiles (snd (for_walk e out (d # rest) stop t)) out = Some (b @ x1)"
      using st s1 t1 by (simp add: d for_walk_step)
    then show ?thesis by blast
  qed
qed

lemma for_walk_sound:
  assumes "\<And>text. write_w e out text = Returns"
    and "\<And>root f. (root, f) \<in> set (candidates w) \<Longrightarrow> read_text e (join root f) \<noteq> Blocks"
    and "outfiles s out = Some old"
  shows "fst (for_walk e out w None s) = Returns \<and>
         outfiles (snd (for_walk e out w None s)) out =
           Some (old @ concat (map (\<lambda>(r, f). block e r f) (candidates w))) \<and>
         trace (snd (for_walk e out w None s)) =
           trace s @ map (\<lambda>(r, f). OpenRead (join r f)) (candidates w)"
  using assms(2,3)
proof (induction w arbitrary: s old)
  case Nil
  then show ?case by (simp add: candidates_Nil)
next
  case (Cons d rest)
  obtain root dirs files where d: "d = (root, dirs, files)" by (cases d)
  have r: "\<And>f. f \<in> set files \<Longrightarrow> endswith f ''.js'' \<Longrightarrow> read_text e (join root f) \<noteq> Blocks"
    by (rule Cons.prems(1)) (simp add: d candidates_Cons)
  note v = for_files_sound[OF assms(1) r Cons.prems(2)]
  let ?s1 = "snd (for_files e out root files s)"
  have "fst (for_walk e out rest None ?s1) = Returns \<and>
         outfiles (snd (for_walk e out rest None ?s1)) out =
           Some ((old @ concat (map (\<lambda>(r, f). block e r f)
                   (filter (\<lambda>(r, f). endswith f ''.js'') (map (Pair root) files)))) @
                 concat (map (\<lambda>(r, f). block e r f) (candidates rest))) \<and>
         trace (snd (for_walk e out rest None ?s1)) =
           trace ?s1 @ map (\<lambda>(r, f). OpenRead (join r f)) (candidates rest)"
    by (rule Cons.IH) (simp_all add: Cons.prems(1) d candidates_Cons v)
  then show ?case
    by (simp add: d for_walk_step candidates_Cons v)
qed

section \<open>The function and \<open>main\<close>\<close>




lemma write_all_sound:
  assumes "\<And>text. write_w e out text = Returns"
    and "snd (walk_of e cartella) = None"
    and "\<And>root f. (root, f) \<in> set (candidates (fst (walk_of e cartella))) \<Longrightarrow>
           read_text e (join root f) \<noteq> Blocks"
  shows "fst (write_all e cartella out s) = Returns \<and>
         outfiles (snd (write_all e cartella out s)) out =
           Some (concat (map (\<lambda>(r, f). block e r f) (candidates (fst (walk_of e cartella))))) \<and>
         trace (snd (write_all e cartella out s)) =
           trace s @ [OpenWrite out, Walk cartella] @
           map (\<lambda>(r, f). OpenRead (join r f)) (candidates (fst (walk_of e cartella)))"
proof -
  let ?s0 = "log_event (Walk cartella) (truncate out (log_event (OpenWrite out) s))"
  have o: "outfiles ?s0 out = Some []" by (simp add: log_event_def truncate_def)
  have t: "trace ?s0 = trace s @ [OpenWrite out, Walk cartella]"
    by (simp add: log_event_def truncate_def)
  show ?thesis
    using for_walk_sound[OF assms(1) assms(3) o] t
    by (simp add: write_all_def assms(2))
qed


lemma write_all_other:
  "p \<noteq> out \<Longrightarrow> outfiles (snd (write_all e cartella out s)) p = outfiles s p"
  by (simp add: write_all_def for_walk_other log_event_def truncate_def)

lemma write_all_stdout: "stdout (snd (write_all e cartella out s)) = stdout s"
  by (simp add: write_all_def for_walk_stdout log_event_def truncate_def)

text \<open>
  The output is emptied when it is opened, so what a run writes and how it ends do
  not depend on the state it starts in.
\<close>

lemma write_all_two:
  "fst (write_all e cartella out s) = fst (write_all e cartella out t) \<and>
   outfiles (snd (write_all e cartella out s)) out =
   outfiles (snd (write_all e cartella out t)) out"
proof -
  let ?s0 = "log_event (Walk cartella) (truncate out (log_event (OpenWrite out) s))"
  let ?t0 = "log_event (Walk cartella) (truncate out (log_event (OpenWrite out) t))"
  have s0: "outfiles ?s0 out = Some []" and t0: "outfiles ?t0 out = Some []"
    by (simp_all add: log_event_def truncate_def)
  obtain x where
    "fst (for_walk e out (fst (walk_of e cartella)) (snd (walk_of e cartella)) ?s0) =
     fst (for_walk e out (fst (walk_of e cartella)) (snd (walk_of e cartella)) ?t0)"
    "outfiles (snd (for_walk e out (fst (walk_of e cartella)) (snd (walk_of e cartella)) ?s0))
       out = Some ([] @ x)"
    "outfiles (snd (for_walk e out (fst (walk_of e cartella)) (snd (walk_of e cartella)) ?t0))
       out = Some ([] @ x)"
    using for_walk_two[OF s0 t0, of e "fst (walk_of e cartella)" "snd (walk_of e cartella)"]
    by blast
  then show ?thesis
    by (simp add: write_all_def)
qed

lemma processa_snd:
  "snd (processa_js_files e cartella out s) =
     (if open_w e out = Returns then snd (write_all e cartella out s) else s)"
  by (cases "write_all e cartella out s")
     (simp add: processa_js_files_def split: ending.split)

lemma processa_fst:
  "fst (processa_js_files e cartella out s) =
     (case open_w e out of
        Returns \<Rightarrow>
          (if fst (write_all e cartella out s) = NeverReturns then NeverReturns
           else (case close_w e out of
                   Returns \<Rightarrow> fst (write_all e cartella out s)
                 | closing \<Rightarrow> closing))
      | failed \<Rightarrow> failed)"
  by (cases "write_all e cartella out s")
     (simp add: processa_js_files_def split: ending.split)


lemma processa_sound:
  assumes "output_sound e out"
    and "snd (walk_of e cartella) = None"
    and "\<And>root f. (root, f) \<in> set (candidates (fst (walk_of e cartella))) \<Longrightarrow>
           read_text e (join root f) \<noteq> Blocks"
  shows "processa_js_files e cartella out s = (Returns, snd (write_all e cartella out s))"
    and "outfiles (snd (write_all e cartella out s)) out =
           Some (concat (map (\<lambda>(r, f). block e r f) (candidates (fst (walk_of e cartella)))))"
    and "trace (snd (write_all e cartella out s)) =
           trace s @ [OpenWrite out, Walk cartella] @
           map (\<lambda>(r, f). OpenRead (join r f)) (candidates (fst (walk_of e cartella)))"
proof -
  have w: "\<And>text. write_w e out text = Returns"
    using assms(1) by (simp add: output_sound_def)
  note a = write_all_sound[OF w assms(2) assms(3), of s]
  have "fst (processa_js_files e cartella out s) = Returns"
    using assms(1) a by (simp add: processa_fst output_sound_def)
  moreover have "snd (processa_js_files e cartella out s) = snd (write_all e cartella out s)"
    using assms(1) by (simp add: processa_snd output_sound_def)
  ultimately show "processa_js_files e cartella out s = (Returns, snd (write_all e cartella out s))"
    by (simp add: prod_eq_iff)
  show "outfiles (snd (write_all e cartella out s)) out =
           Some (concat (map (\<lambda>(r, f). block e r f) (candidates (fst (walk_of e cartella)))))"
    using a by simp
  show "trace (snd (write_all e cartella out s)) =
           trace s @ [OpenWrite out, Walk cartella] @
           map (\<lambda>(r, f). OpenRead (join r f)) (candidates (fst (walk_of e cartella)))"
    using a by simp
qed

lemma processa_two:
  "fst (processa_js_files e cartella out s) = fst (processa_js_files e cartella out t)"
proof -
  have "fst (write_all e cartella out s) = fst (write_all e cartella out t)"
    using write_all_two[of e cartella out s t] by simp
  then show ?thesis by (simp only: processa_fst)
qed

lemma processa_again:
  assumes "outfiles t = outfiles (snd (processa_js_files e cartella out s))"
  shows "outfiles (snd (processa_js_files e cartella out t)) = outfiles t"
proof (cases "open_w e out = Returns")
  case False
  then show ?thesis by (simp add: processa_snd)
next
  case True
  show ?thesis
  proof
    fix p
    show "outfiles (snd (processa_js_files e cartella out t)) p = outfiles t p"
    proof (cases "p = out")
      case True
      then show ?thesis
        using \<open>open_w e out = Returns\<close> assms write_all_two[of e cartella out s t]
        by (simp add: processa_snd)
    next
      case False
      then show ?thesis
        using \<open>open_w e out = Returns\<close> by (simp add: processa_snd write_all_other)
    qed
  qed
qed

lemma main_three:
  "main e [prog, cartella, out] s =
     (if \<not> isdir e cartella then
        (SysExit 1,
         print (''Errore: '' @ cartella @ '' non '' @ [CHR 0xC3, CHR 0xA8] @
                '' una cartella valida.'') s)
      else (case fst (processa_js_files e cartella out s) of
              Returns \<Rightarrow>
                (Completed,
                 print (''Elaborazione completata. Output salvato in '' @ out)
                   (snd (processa_js_files e cartella out s)))
            | Raises err \<Rightarrow> (Uncaught err, snd (processa_js_files e cartella out s))
            | NeverReturns \<Rightarrow> (NeverEnds, snd (processa_js_files e cartella out s))))"
  by (cases "processa_js_files e cartella out s")
     (simp add: main_def Let_def split: ending.split)

lemma main_three_outfiles:
  "outfiles (snd (main e [prog, cartella, out] s)) =
     (if isdir e cartella then outfiles (snd (processa_js_files e cartella out s))
      else outfiles s)"
  by (simp add: main_three print_def split: ending.split)

lemma main_three_fst:
  "fst (main e [prog, cartella, out] s) =
     (if \<not> isdir e cartella then SysExit 1
      else (case fst (processa_js_files e cartella out s) of
              Returns \<Rightarrow> Completed
            | Raises err \<Rightarrow> Uncaught err
            | NeverReturns \<Rightarrow> NeverEnds))"
  by (simp add: main_three split: ending.split)

section \<open>The walk reaches the entries of the tree\<close>







section \<open>The examples, evaluated\<close>

lemma example_walk:
  "walk_of example_env ''proj'' =
     ([(''proj'', [''sub''], [''a.js'', ''c.txt'']), (''proj/sub'', [], [''a.js'', ''b.js''])],
      None)"
  by (simp add: walk_of_def example_env_def example_tree_def join_def os_walk.simps)

lemma example_candidates:
  "candidates (fst (walk_of example_env ''proj'')) =
     [(''proj'', ''a.js''), (''proj/sub'', ''a.js''), (''proj/sub'', ''b.js'')]"
  by (simp add: example_walk candidates_def walk_files_def endswith_def)


lemma example_reads:
  "read_text example_env ''proj/a.js'' = Text ''let x=1;''"
  "read_text example_env ''proj/sub/a.js'' = Fails ''Permission denied''"
  "read_text example_env ''proj/sub/b.js'' = Text ''let y=2;\<newline>''"
  by (simp_all add: read_text_def example_env_def)

lemma example_blocks:
  "block example_env ''proj'' ''a.js'' = ''//a.js\<newline>let x=1;\<newline>''"
  "block example_env ''proj/sub'' ''a.js'' =
     ''//a.js\<newline>// Impossibile leggere a.js: Permission denied\<newline>''"
  "block example_env ''proj/sub'' ''b.js'' = ''//b.js\<newline>let y=2;\<newline>\<newline>''"
  by (simp_all add: block_def join_def example_reads)

lemma example_isdir: "isdir example_env ''proj''" "\<not> isdir example_env ''nowhere''"
  by (simp_all add: isdir_def example_env_def)

lemma example_output:
  "output_sound example_env ''out.txt''"
  "open_w example_env ''proj'' = Raises ''[Errno 21] Is a directory''"
  "write_w example_env ''out.txt'' text = Returns"
  by (simp_all add: output_sound_def example_env_def)

lemma example_no_block:
  "(root, f) \<in> set (candidates (fst (walk_of example_env ''proj''))) \<Longrightarrow>
   read_text example_env (join root f) \<noteq> Blocks"
  by (auto simp add: example_candidates join_def example_reads)


section \<open>Blocks and candidates\<close>









section \<open>The header line\<close>

text \<open>
  C2, as the code has it. For every candidate file whose header can be written, the
  text written starts with the header line: two slashes, the file name with no space
  before it, a newline. When the file can be read and its text written, the visit
  returns and the header is followed at once by the text read and one newline. (A
  file that cannot be read gets the comment of C3 after its header.)
\<close>

theorem block_is_header_then_content:
  assumes "endswith filename ''.js''" and "outfiles s file_output = Some old"
    and "write_w e file_output (''//'' @ filename @ ''\<newline>'') = Returns"
  shows "(\<exists>body. outfiles (snd (visit_file e file_output root filename s)) file_output =
                   Some (old @ ''//'' @ filename @ ''\<newline>'' @ body)) \<and>
         (\<forall>contenuto. read_text e (join root filename) = Text contenuto \<longrightarrow>
            write_w e file_output (contenuto @ ''\<newline>'') = Returns \<longrightarrow>
            fst (visit_file e file_output root filename s) = Returns \<and>
            outfiles (snd (visit_file e file_output root filename s)) file_output =
              Some (old @ ''//'' @ filename @ ''\<newline>'' @ contenuto @ ''\<newline>''))"
proof
  show "\<exists>body. outfiles (snd (visit_file e file_output root filename s)) file_output =
                   Some (old @ ''//'' @ filename @ ''\<newline>'' @ body)"
    using assms by (rule visit_file_header)
  show "\<forall>contenuto. read_text e (join root filename) = Text contenuto \<longrightarrow>
            write_w e file_output (contenuto @ ''\<newline>'') = Returns \<longrightarrow>
            fst (visit_file e file_output root filename s) = Returns \<and>
            outfiles (snd (visit_file e file_output root filename s)) file_output =
              Some (old @ ''//'' @ filename @ ''\<newline>'' @ contenuto @ ''\<newline>'')"
    using assms by (simp add: visit_file_def out_write_def log_event_def Let_def)
qed

theorem block_is_header_then_content_witness:
  "outfiles (snd (visit_file example_env ''out.txt'' ''proj'' ''a.js''
               (truncate ''out.txt'' initial_state))) ''out.txt'' =
     Some ''//a.js\<newline>let x=1;\<newline>''"
proof -
  have j: "endswith ''a.js'' ''.js''" by (simp add: endswith_def)
  have o: "outfiles (truncate ''out.txt'' initial_state) ''out.txt'' = Some []"
    by (simp add: truncate_def)
  have r: "read_text example_env (join ''proj'' ''a.js'') = Text ''let x=1;''"
    by (simp add: join_def example_reads)
  show ?thesis
    using block_is_header_then_content[OF j o example_output(3), of "''proj''"] r
      example_output(3)
    by simp
qed

text \<open>
  C2 as worded, for every candidate file, fails at \<open>proj/sub/a.js\<close>: it is a
  candidate, reading it raises, and its block is the header followed by the comment,
  not by the file's content.
\<close>

theorem unreadable_candidate_block_has_no_content:
  "endswith ''a.js'' ''.js'' \<and>
   read_text example_env (join ''proj/sub'' ''a.js'') = Fails ''Permission denied'' \<and>
   outfiles (snd (visit_file example_env ''out.txt'' ''proj/sub'' ''a.js''
               (truncate ''out.txt'' initial_state))) ''out.txt'' =
     Some ''//a.js\<newline>// Impossibile leggere a.js: Permission denied\<newline>''"
  by (simp add: endswith_def visit_file_def join_def example_reads out_write_def log_event_def
      truncate_def example_output(3))



section \<open>The checks of \<open>main\<close>\<close>

text \<open>
  C7. An invocation is the program name and its positional arguments. When there are
  not exactly two arguments, \<open>main\<close> prints the usage line on standard output and exits
  with status 1; nothing else of the state changes: no file is written, and the log
  of file-system operations (opening, walking, reading) is the one it started with.
\<close>

theorem usage_error_exits_without_io:
  assumes "length args \<noteq> 2"
  shows "main e (prog # args) s =
           (SysExit 1,
            s\<lparr>stdout := stdout s @ ''Uso: '' @ prog @
                 '' <cartella_di_input> <file_di_output>'' @ ''\<newline>''\<rparr>)
         \<and> exit_status (fst (main e (prog # args) s)) = Some 1
         \<and> outfiles (snd (main e (prog # args) s)) = outfiles s
         \<and> trace (snd (main e (prog # args) s)) = trace s"
  using assms by (simp add: main_def print_def)

theorem usage_error_witness:
  "main example_env [''concat-js.py''] initial_state =
     (SysExit 1,
      initial_state\<lparr>stdout :=
        ''Uso: concat-js.py <cartella_di_input> <file_di_output>\<newline>''\<rparr>)
   \<and> main example_env [''concat-js.py'', ''proj''] initial_state =
     (SysExit 1,
      initial_state\<lparr>stdout :=
        ''Uso: concat-js.py <cartella_di_input> <file_di_output>\<newline>''\<rparr>)
   \<and> exit_status (fst (main example_env [''concat-js.py'', ''proj'', ''out.txt'', ''more'']
                          initial_state)) = Some 1
   \<and> trace (snd (main example_env [''concat-js.py'', ''proj'', ''out.txt'', ''more'']
                    initial_state)) = []"
  using usage_error_exits_without_io[of "[]" example_env "''concat-js.py''" initial_state]
    usage_error_exits_without_io[of "[''proj'']" example_env "''concat-js.py''" initial_state]
    usage_error_exits_without_io[of "[''proj'', ''out.txt'', ''more'']" example_env
      "''concat-js.py''" initial_state]
  by (simp add: initial_state_def)

text \<open>
  C5. With two arguments of which the first is not a directory, \<open>main\<close> prints the
  error line and exits with status 1 before \<open>processa_js_files\<close> is called: the files
  written and the log of operations are unchanged, so the output path is left as it
  was.
\<close>

theorem invalid_directory_exits_without_output:
  assumes "\<not> isdir e cartella_di_input"
  shows "main e [prog, cartella_di_input, file_di_output] s =
           (SysExit 1,
            s\<lparr>stdout := stdout s @ ''Errore: '' @ cartella_di_input @ '' non '' @
                 [CHR 0xC3, CHR 0xA8] @ '' una cartella valida.'' @ ''\<newline>''\<rparr>)
         \<and> exit_status (fst (main e [prog, cartella_di_input, file_di_output] s)) = Some 1
         \<and> outfiles (snd (main e [prog, cartella_di_input, file_di_output] s)) = outfiles s
         \<and> trace (snd (main e [prog, cartella_di_input, file_di_output] s)) = trace s"
  using assms by (simp add: main_def print_def)

theorem invalid_directory_witness:
  "exit_status (fst (main example_env [''concat-js.py'', ''nowhere'', ''out.txt'']
                       initial_state)) = Some 1
   \<and> outfiles (snd (main example_env [''concat-js.py'', ''nowhere'', ''out.txt'']
                       initial_state)) ''out.txt'' = None
   \<and> trace (snd (main example_env [''concat-js.py'', ''nowhere'', ''out.txt'']
                    initial_state)) = []"
  using invalid_directory_exits_without_output[OF example_isdir(2),
      of "''concat-js.py''" "''out.txt''" initial_state]
  by (simp add: initial_state_def)




section \<open>Running twice\<close>

text \<open>
  C8. A second run with the same arguments on the same files, started in the state
  the first run left (the output file now exists and holds the first output), ends
  as the first did and leaves every written file with the same content: the output
  is opened for writing, which empties it, and then written afresh.
\<close>

theorem second_run_same_output:
  "fst (main e argv (snd (main e argv s))) = fst (main e argv s) \<and>
   outfiles (snd (main e argv (snd (main e argv s)))) = outfiles (snd (main e argv s))"
proof (cases "length argv = 3")
  case False
  then show ?thesis by (cases argv) (simp_all add: main_def print_def)
next
  case True
  then obtain prog cartella out where argv: "argv = [prog, cartella, out]"
    by (cases argv; cases "tl argv"; cases "tl (tl argv)") auto
  show ?thesis
  proof (cases "isdir e cartella")
    case False
    then show ?thesis by (simp add: argv main_three print_def)
  next
    case True
    let ?s1 = "snd (main e [prog, cartella, out] s)"
    have o1: "outfiles ?s1 = outfiles (snd (processa_js_files e cartella out s))"
      using True by (simp add: main_three_outfiles)
    have "fst (main e [prog, cartella, out] ?s1) = fst (main e [prog, cartella, out] s)"
      using processa_two[of e cartella out ?s1 s] by (simp add: main_three_fst)
    moreover have "outfiles (snd (main e [prog, cartella, out] ?s1)) = outfiles ?s1"
      using True processa_again[OF o1] by (simp add: main_three_outfiles)
    ultimately show ?thesis by (simp add: argv)
  qed
qed

theorem second_run_witness:
  "outfiles (snd (main example_env [''concat-js.py'', ''proj'', ''out.txt'']
       (snd (main example_env [''concat-js.py'', ''proj'', ''out.txt''] initial_state))))
     ''out.txt'' =
   Some (''//a.js\<newline>let x=1;\<newline>'' @
         ''//a.js\<newline>// Impossibile leggere a.js: Permission denied\<newline>'' @
         ''//b.js\<newline>let y=2;\<newline>\<newline>'')"
proof -
  have stop: "snd (walk_of example_env ''proj'') = None" by (simp add: example_walk)
  note p = processa_sound[OF example_output(1) stop example_no_block, of initial_state]
  have q: "snd (processa_js_files example_env ''proj'' ''out.txt'' initial_state) =
             snd (write_all example_env ''proj'' ''out.txt'' initial_state)"
    by (simp only: p(1) snd_conv)
  have "outfiles (snd (main example_env [''concat-js.py'', ''proj'', ''out.txt'']
           initial_state)) ''out.txt'' =
        Some (''//a.js\<newline>let x=1;\<newline>'' @
         ''//a.js\<newline>// Impossibile leggere a.js: Permission denied\<newline>'' @
         ''//b.js\<newline>let y=2;\<newline>\<newline>'')"
    using p(2) by (simp add: main_three_outfiles example_isdir q example_candidates
        example_blocks)
  then show ?thesis
    using second_run_same_output[of example_env "[''concat-js.py'', ''proj'', ''out.txt'']"
        initial_state]
    by simp
qed

section \<open>Which entries are candidates\<close>




text \<open>
  A FIFO is a candidate like any other entry that is not a directory, but opening it
  never returns: its header is written and the run never ends.
\<close>

lemma fifo_candidate_never_ends:
  "fst (main fifo_env [''concat-js.py'', ''proj'', ''out.txt''] initial_state) = NeverEnds"
proof -
  have w: "walk_of fifo_env ''proj'' = ([(''proj'', [], [''p.js''])], None)"
    by (simp add: walk_of_def fifo_env_def os_walk.simps)
  have v: "fst (visit_file fifo_env ''out.txt'' ''proj'' ''p.js'' s) = NeverReturns" for s
    by (simp add: visit_file_def endswith_def out_write_def read_text_def fifo_env_def Let_def)
  have "fst (write_all fifo_env ''proj'' ''out.txt'' initial_state) = NeverReturns"
    by (simp add: write_all_def w for_walk_step for_files_step v)
  then show ?thesis
    by (simp add: main_three_fst processa_fst isdir_def fifo_env_def)
qed

end
